theory Spec2Isabelle
  imports Complex_Main "HOL-Library.Char_ord" "HOL-Library.List_Lexorder" "HOL-Library.AList"
begin

section \<open>Values exchanged with the catalog services\<close>

text \<open>
  \<^verbatim>\<open>response.json()\<close> yields an arbitrary JSON value: Python's \<^verbatim>\<open>None\<close>, \<^verbatim>\<open>bool\<close>,
  \<^verbatim>\<open>int\<close>, \<^verbatim>\<open>float\<close>, \<^verbatim>\<open>str\<close>, \<^verbatim>\<open>list\<close> and \<^verbatim>\<open>dict\<close> (string keys, in
  insertion order). Floats are taken as exact reals; the fetcher only compares them,
  tests them for zero and passes them on. A dict holds each key once; a \<open>JObj\<close> list that
  repeats a key is read as the dict of the first occurrences.
\<close>

datatype json =
    JNull
  | JBool bool
  | JInt int
  | JFloat real
  | JStr string
  | JArr "json list"
  | JObj "(string \<times> json) list"

text \<open>
  Every exception the fetcher can meet is a subclass of \<^verbatim>\<open>Exception\<close>, which is what both
  \<^verbatim>\<open>except Exception\<close> clauses catch. \<open>RequestException\<close> stands for any failure of
  \<^verbatim>\<open>requests.get(...)\<close> or of decoding its body, \<open>CallbackException\<close> for a failure inside
  the caller's progress callback, \<open>ReadCsvError\<close> for a failure of \<^verbatim>\<open>pd.read_csv\<close>.
  \<open>UnicodeEncodeError\<close> and \<open>OSError\<close> are what building and writing the table can raise;
  these two statements stand after the loops, outside both \<^verbatim>\<open>try\<close> blocks.
\<close>

datatype exn =
    KeyError
  | TypeError
  | AttributeError
  | RequestException
  | CallbackException
  | FileNotFoundError
  | ReadCsvError
  | UnicodeEncodeError
  | OSError

subsection \<open>The Python operations applied to these values\<close>

text \<open>\<^verbatim>\<open>d.get(k, default)\<close>: only a dict has the method.\<close>

fun dict_get :: "json \<Rightarrow> string \<Rightarrow> json \<Rightarrow> exn + json" where
  "dict_get (JObj kvs) k d = Inr (case map_of kvs k of None \<Rightarrow> d | Some v \<Rightarrow> v)"
| "dict_get _ k d = Inl AttributeError"

text \<open>\<^verbatim>\<open>x["k"]\<close> with a string key: \<^verbatim>\<open>KeyError\<close> on a dict without the key,
  \<^verbatim>\<open>TypeError\<close> on every other value.\<close>

fun subscript :: "json \<Rightarrow> string \<Rightarrow> exn + json" where
  "subscript (JObj kvs) k = (case map_of kvs k of None \<Rightarrow> Inl KeyError | Some v \<Rightarrow> Inr v)"
| "subscript _ k = Inl TypeError"

fun startswith :: "string \<Rightarrow> string \<Rightarrow> bool" where
  "startswith s p = (take (length p) s = p)"

fun endswith :: "string \<Rightarrow> string \<Rightarrow> bool" where
  "endswith s p = (length p \<le> length s \<and> drop (length s - length p) s = p)"

fun substring :: "string \<Rightarrow> string \<Rightarrow> bool" where
  "substring p [] = (p = [])"
| "substring p (c # cs) = (startswith (c # cs) p \<or> substring p cs)"

text \<open>\<^verbatim>\<open>"k" in x\<close>: key membership on a dict, element membership on a list, substring test
  on a string, \<^verbatim>\<open>TypeError\<close> on the values that are not containers.\<close>

fun contains :: "string \<Rightarrow> json \<Rightarrow> exn + bool" where
  "contains k (JObj kvs) = Inr (k \<in> set (map fst kvs))"
| "contains k (JArr xs) = Inr (JStr k \<in> set xs)"
| "contains k (JStr s) = Inr (substring k s)"
| "contains k _ = Inl TypeError"

text \<open>\<^verbatim>\<open>for x in v\<close>: the elements of a list, the keys of a dict, the characters of a string.\<close>

fun py_iter :: "json \<Rightarrow> exn + json list" where
  "py_iter (JArr xs) = Inr xs"
| "py_iter (JObj kvs) = Inr (map (\<lambda>kv. JStr (fst kv)) kvs)"
| "py_iter (JStr s) = Inr (map (\<lambda>c. JStr [c]) s)"
| "py_iter _ = Inl TypeError"

text \<open>Truth value of \<^verbatim>\<open>if v:\<close>.\<close>

fun truthy :: "json \<Rightarrow> bool" where
  "truthy JNull = False"
| "truthy (JBool b) = b"
| "truthy (JInt n) = (n \<noteq> 0)"
| "truthy (JFloat x) = (x \<noteq> 0)"
| "truthy (JStr s) = (s \<noteq> [])"
| "truthy (JArr xs) = (xs \<noteq> [])"
| "truthy (JObj kvs) = (kvs \<noteq> [])"

text \<open>
  \<^verbatim>\<open>min(v, max_pages)\<close> keeps \<open>v\<close> unless \<^verbatim>\<open>max_pages < v\<close>; the comparison raises
  \<^verbatim>\<open>TypeError\<close> when \<open>v\<close> is not a number. A \<^verbatim>\<open>bool\<close> is an \<^verbatim>\<open>int\<close> in Python.
\<close>

fun py_min :: "json \<Rightarrow> int \<Rightarrow> exn + json" where
  "py_min (JInt n) m = Inr (if m < n then JInt m else JInt n)"
| "py_min (JBool b) m = Inr (if m < (if b then 1 else 0) then JInt m else JBool b)"
| "py_min (JFloat x) m = Inr (if real_of_int m < x then JInt m else JFloat x)"
| "py_min _ m = Inl TypeError"

text \<open>\<^verbatim>\<open>range(1, v + 1)\<close>: a float bound is refused.\<close>

fun py_range1 :: "json \<Rightarrow> exn + int list" where
  "py_range1 (JInt n) = Inr [1..n]"
| "py_range1 (JBool b) = Inr [1..(if b then 1 else 0)]"
| "py_range1 _ = Inl TypeError"

text \<open>\<^verbatim>\<open>", ".join(xs)\<close>: every element must be a string.\<close>

fun join :: "string \<Rightarrow> json list \<Rightarrow> exn + string" where
  "join sep [] = Inr []"
| "join sep [JStr s] = Inr s"
| "join sep (JStr s # x # xs) =
     (case join sep (x # xs) of Inl e \<Rightarrow> Inl e | Inr r \<Rightarrow> Inr (s @ sep @ r))"
| "join sep (_ # xs) = Inl TypeError"

text \<open>The list comprehension \<^verbatim>\<open>[genre["name"] for genre in gs]\<close> stops at the first
  element that cannot be subscripted.\<close>

fun genre_names :: "json list \<Rightarrow> exn + json list" where
  "genre_names [] = Inr []"
| "genre_names (genre # gs) =
     (case subscript genre ''name'' of
        Inl e \<Rightarrow> Inl e
      | Inr n \<Rightarrow> (case genre_names gs of Inl e \<Rightarrow> Inl e | Inr ns \<Rightarrow> Inr (n # ns)))"

section \<open>The world the fetcher runs in\<close>

text \<open>
  The four outbound calls. Each carries what the URL and the query parameters are built
  from: the API key, and for the discover call the content type, provider, region and page.
\<close>

datatype request =
    Discover string string int string int
  | Omdb string json
  | External_ids string string json
  | Details string string json

text \<open>The progress message
  \<^verbatim>\<open>f"Processing {provider_name} {content_type}s - page {page}/{total_pages}"\<close>
  is kept as the four values it is formatted from.\<close>

datatype progress_message = Processing string string int json

text \<open>What the run does to the outside, in the order it happens.\<close>

datatype event =
    Get request
  | Progress progress_message real
  | Sleep real
  | Print_item_error exn
  | Print_provider_error string string exn

text \<open>
  The state threaded through the run: the state \<open>world\<close> of everything outside the process
  (the remote services, the user interface behind the callback, the clock), the files of
  the working directory with their contents, and the trace of events so far.
\<close>

record 'w st =
  world :: 'w
  files :: "(string \<times> string) list"
  trace :: "event list"

text \<open>
  The collaborators that are not part of the repository: \<open>http_get_json\<close> is
  \<^verbatim>\<open>requests.get(url, ...).json()\<close> (an answer or an exception, and the next state of the
  world), \<open>strftime_now\<close> is \<^verbatim>\<open>datetime.now().strftime("%Y%m%d_%H%M%S")\<close>, and the last three
  are pandas: \<open>data_frame\<close> tells whether \<^verbatim>\<open>pd.DataFrame(all_content)\<close> raises (otherwise
  the table is the list of these rows), \<open>to_csv\<close> is \<^verbatim>\<open>df.to_csv(filename, index=False)\<close>
  for a table, a file name and the state of the world, and \<open>read_csv\<close> is the parser.
\<close>

type_synonym content_info = "(string \<times> json) list"

type_synonym dataframe = "content_info list"

text \<open>
  What \<^verbatim>\<open>df.to_csv(filename)\<close> can do: write the whole text, or raise. When it raises, the
  file is either untouched (\<open>None\<close>) or left behind with what was written before the
  failure.
\<close>

datatype write_result =
    Written string
  | Write_failed exn "string option"

record 'w env =
  http_get_json :: "request \<Rightarrow> 'w \<Rightarrow> (exn + json) \<times> 'w"
  strftime_now :: "'w \<Rightarrow> string"
  data_frame :: "content_info list \<Rightarrow> exn option"
  to_csv :: "dataframe \<Rightarrow> string \<Rightarrow> 'w \<Rightarrow> write_result"
  read_csv :: "string \<Rightarrow> exn + dataframe"

type_synonym 'w callback = "progress_message \<Rightarrow> real \<Rightarrow> 'w \<Rightarrow> exn option \<times> 'w"

definition emit :: "event \<Rightarrow> 'w st \<Rightarrow> 'w st" where
  "emit e s = s\<lparr>trace := trace s @ [e]\<rparr>"

definition http_get :: "'w env \<Rightarrow> request \<Rightarrow> 'w st \<Rightarrow> (exn + json) \<times> 'w st" where
  "http_get env rq s =
     (case http_get_json env rq (world s) of
        (r, w') \<Rightarrow> (r, s\<lparr>world := w', trace := trace s @ [Get rq]\<rparr>))"

section \<open>StreamingDataFetcher\<close>

record fetcher =
  tmdb_api_key :: string
  omdb_api_key :: string
  region :: string
  providers :: "(int \<times> string) list"

definition StreamingDataFetcher :: "string \<Rightarrow> string \<Rightarrow> string \<Rightarrow> fetcher" where
  "StreamingDataFetcher tmdb omdb reg =
     \<lparr>tmdb_api_key = tmdb, omdb_api_key = omdb, region = reg,
      providers = [(8, ''Netflix''), (2, ''Apple TV''), (9, ''Amazon Prime''),
                   (337, ''Disney+''), (384, ''HBO Max''), (15, ''Hulu'')]\<rparr>"

definition get_streaming_content ::
  "'w env \<Rightarrow> fetcher \<Rightarrow> string \<Rightarrow> int \<Rightarrow> int \<Rightarrow> 'w st \<Rightarrow> (exn + json) \<times> 'w st" where
  "get_streaming_content env self content_type provider_id page =
     http_get env (Discover (tmdb_api_key self) content_type provider_id (region self) page)"

definition get_imdb_data :: "'w env \<Rightarrow> fetcher \<Rightarrow> json \<Rightarrow> 'w st \<Rightarrow> (exn + json) \<times> 'w st" where
  "get_imdb_data env self imdb_id = http_get env (Omdb (omdb_api_key self) imdb_id)"

definition get_external_ids ::
  "'w env \<Rightarrow> fetcher \<Rightarrow> string \<Rightarrow> json \<Rightarrow> 'w st \<Rightarrow> (exn + json) \<times> 'w st" where
  "get_external_ids env self content_type tmdb_id =
     http_get env (External_ids (tmdb_api_key self) content_type tmdb_id)"

definition get_content_details ::
  "'w env \<Rightarrow> fetcher \<Rightarrow> string \<Rightarrow> json \<Rightarrow> 'w st \<Rightarrow> (exn + json) \<times> 'w st" where
  "get_content_details env self content_type tmdb_id =
     http_get env (Details (tmdb_api_key self) content_type tmdb_id)"

subsection \<open>One item (the body of the inner \<^verbatim>\<open>try\<close>)\<close>

text \<open>The dict literal of the basic content info. \<open>item\<close> is a dict here, since
  \<^verbatim>\<open>item["id"]\<close> has succeeded; \<^verbatim>\<open>item.get(k)\<close> is \<^verbatim>\<open>None\<close> for a missing key.\<close>

definition basic_info ::
  "string \<Rightarrow> string \<Rightarrow> json \<Rightarrow> json \<Rightarrow> json \<Rightarrow> exn + content_info" where
  "basic_info content_type provider_name item tmdb_id imdb_id =
     (case dict_get item (if content_type = ''tv'' then ''name'' else ''title'') JNull of
        Inl e \<Rightarrow> Inl e
      | Inr title \<Rightarrow>
     (case dict_get item ''overview'' JNull of
        Inl e \<Rightarrow> Inl e
      | Inr overview \<Rightarrow>
     (case dict_get item (if content_type = ''tv'' then ''first_air_date'' else ''release_date'') JNull of
        Inl e \<Rightarrow> Inl e
      | Inr release_date \<Rightarrow>
     (case dict_get item ''vote_average'' JNull of
        Inl e \<Rightarrow> Inl e
      | Inr vote_average \<Rightarrow>
     (case dict_get item ''popularity'' JNull of
        Inl e \<Rightarrow> Inl e
      | Inr popularity \<Rightarrow>
     (case dict_get item ''poster_path'' JNull of
        Inl e \<Rightarrow> Inl e
      | Inr poster_path \<Rightarrow>
          Inr [(''type'', JStr (if content_type = ''tv'' then ''TV Show'' else ''Movie'')),
               (''title'', title),
               (''overview'', overview),
               (''tmdb_id'', tmdb_id),
               (''imdb_id'', imdb_id),
               (''provider'', JStr provider_name),
               (''release_date'', release_date),
               (''tmdb_rating'', vote_average),
               (''popularity'', popularity),
               (''poster_path'', poster_path)]))))))"

text \<open>\<^verbatim>\<open>if "genres" in details: content_info["genres"] = ", ".join([...])\<close>\<close>

definition add_genres :: "json \<Rightarrow> content_info \<Rightarrow> exn + content_info" where
  "add_genres details content_info =
     (case contains ''genres'' details of
        Inl e \<Rightarrow> Inl e
      | Inr False \<Rightarrow> Inr content_info
      | Inr True \<Rightarrow>
     (case subscript details ''genres'' of
        Inl e \<Rightarrow> Inl e
      | Inr gs \<Rightarrow>
     (case py_iter gs of
        Inl e \<Rightarrow> Inl e
      | Inr genres \<Rightarrow>
     (case genre_names genres of
        Inl e \<Rightarrow> Inl e
      | Inr names \<Rightarrow>
     (case join '', '' names of
        Inl e \<Rightarrow> Inl e
      | Inr joined \<Rightarrow> Inr (content_info @ [(''genres'', JStr joined)]))))))"

definition add_imdb ::
  "'w env \<Rightarrow> fetcher \<Rightarrow> json \<Rightarrow> content_info \<Rightarrow> 'w st \<Rightarrow> (exn + content_info) \<times> 'w st" where
  "add_imdb env self imdb_id content_info s =
     (if truthy imdb_id then
        (case get_imdb_data env self imdb_id s of
           (Inl e, s1) \<Rightarrow> (Inl e, s1)
         | (Inr imdb_data, s1) \<Rightarrow>
        (case dict_get imdb_data ''imdbRating'' (JStr ''N/A'') of
           Inl e \<Rightarrow> (Inl e, s1)
         | Inr rating \<Rightarrow>
        (case dict_get imdb_data ''imdbVotes'' (JStr ''N/A'') of
           Inl e \<Rightarrow> (Inl e, s1)
         | Inr votes \<Rightarrow>
             (Inr (content_info @ [(''imdb_rating'', rating), (''imdb_votes'', votes)]), s1))))
      else
        (Inr (content_info @ [(''imdb_rating'', JStr ''N/A''), (''imdb_votes'', JStr ''N/A'')]), s))"

definition item_body ::
  "'w env \<Rightarrow> fetcher \<Rightarrow> string \<Rightarrow> string \<Rightarrow> json \<Rightarrow> 'w st \<Rightarrow> (exn + content_info) \<times> 'w st" where
  "item_body env self content_type provider_name item s =
     (case subscript item ''id'' of
        Inl e \<Rightarrow> (Inl e, s)
      | Inr tmdb_id \<Rightarrow>
     (case get_content_details env self content_type tmdb_id s of
        (Inl e, s1) \<Rightarrow> (Inl e, s1)
      | (Inr details, s1) \<Rightarrow>
     (case get_external_ids env self content_type tmdb_id s1 of
        (Inl e, s2) \<Rightarrow> (Inl e, s2)
      | (Inr external_ids, s2) \<Rightarrow>
     (case dict_get external_ids ''imdb_id'' JNull of
        Inl e \<Rightarrow> (Inl e, s2)
      | Inr imdb_id \<Rightarrow>
     (case basic_info content_type provider_name item tmdb_id imdb_id of
        Inl e \<Rightarrow> (Inl e, s2)
      | Inr content_info \<Rightarrow>
     (case add_genres details content_info of
        Inl e \<Rightarrow> (Inl e, s2)
      | Inr content_info1 \<Rightarrow> add_imdb env self imdb_id content_info1 s2))))))"

subsection \<open>The loops\<close>

text \<open>\<^verbatim>\<open>for item in data.get("results", [])\<close>: a failing item is reported and skipped, and
  the pause follows every item.\<close>

fun item_loop ::
  "'w env \<Rightarrow> fetcher \<Rightarrow> string \<Rightarrow> string \<Rightarrow> json list \<Rightarrow> dataframe \<Rightarrow> 'w st
     \<Rightarrow> dataframe \<times> 'w st" where
  "item_loop env self content_type provider_name [] all_content s = (all_content, s)"
| "item_loop env self content_type provider_name (item # items) all_content s =
     (case item_body env self content_type provider_name item s of
        (Inr content_info, s1) \<Rightarrow>
          item_loop env self content_type provider_name items (all_content @ [content_info])
            (emit (Sleep (1 / 2)) s1)
      | (Inl e, s1) \<Rightarrow>
          item_loop env self content_type provider_name items all_content
            (emit (Sleep (1 / 2)) (emit (Print_item_error e) s1)))"

definition call_progress ::
  "'w callback option \<Rightarrow> progress_message \<Rightarrow> real \<Rightarrow> 'w st \<Rightarrow> exn option \<times> 'w st" where
  "call_progress progress_callback message overall_progress s =
     (case progress_callback of
        None \<Rightarrow> (None, s)
      | Some f \<Rightarrow>
          (case f message overall_progress (world s) of
             (r, w') \<Rightarrow> (r, s\<lparr>world := w', trace := trace s @ [Progress message overall_progress]\<rparr>)))"

text \<open>What does not change during one (content type, provider) combination.\<close>

record combination =
  content_type :: string
  provider_id :: int
  provider_name :: string
  provider_idx :: int
  total_providers :: int

text \<open>\<^verbatim>\<open>for page in range(1, total_pages + 1)\<close>. An exception that leaves the loop is
  returned with the records gathered so far, which stay in \<open>all_content\<close>.\<close>

fun page_loop ::
  "'w env \<Rightarrow> fetcher \<Rightarrow> 'w callback option \<Rightarrow> combination \<Rightarrow> json \<Rightarrow> json \<Rightarrow> int list
     \<Rightarrow> dataframe \<Rightarrow> 'w st \<Rightarrow> exn option \<times> dataframe \<times> 'w st" where
  "page_loop env self cb c initial_data total_pages [] all_content s = (None, all_content, s)"
| "page_loop env self cb c initial_data total_pages (page # pages) all_content s =
     (case call_progress cb
             (Processing (provider_name c) (content_type c) page total_pages)
             (real_of_int (provider_idx c - 1) / real_of_int (total_providers c)) s of
        (Some e, s1) \<Rightarrow> (Some e, all_content, s1)
      | (None, s1) \<Rightarrow>
     (case (if page > 1 then get_streaming_content env self (content_type c) (provider_id c) page s1
            else (Inr initial_data, s1)) of
        (Inl e, s2) \<Rightarrow> (Some e, all_content, s2)
      | (Inr data, s2) \<Rightarrow>
     (case dict_get data ''results'' (JArr []) of
        Inl e \<Rightarrow> (Some e, all_content, s2)
      | Inr results \<Rightarrow>
     (case py_iter results of
        Inl e \<Rightarrow> (Some e, all_content, s2)
      | Inr items \<Rightarrow>
     (case item_loop env self (content_type c) (provider_name c) items all_content s2 of
        (all_content1, s3) \<Rightarrow>
          page_loop env self cb c initial_data total_pages pages all_content1
            (emit (Sleep 1) s3))))))"

text \<open>The body of the outer \<^verbatim>\<open>try\<close>.\<close>

definition provider_body ::
  "'w env \<Rightarrow> fetcher \<Rightarrow> int \<Rightarrow> 'w callback option \<Rightarrow> combination \<Rightarrow> dataframe \<Rightarrow> 'w st
     \<Rightarrow> exn option \<times> dataframe \<times> 'w st" where
  "provider_body env self max_pages cb c all_content s =
     (case get_streaming_content env self (content_type c) (provider_id c) 1 s of
        (Inl e, s1) \<Rightarrow> (Some e, all_content, s1)
      | (Inr initial_data, s1) \<Rightarrow>
     (case dict_get initial_data ''total_pages'' (JInt 1) of
        Inl e \<Rightarrow> (Some e, all_content, s1)
      | Inr reported \<Rightarrow>
     (case py_min reported max_pages of
        Inl e \<Rightarrow> (Some e, all_content, s1)
      | Inr total_pages \<Rightarrow>
     (case py_range1 total_pages of
        Inl e \<Rightarrow> (Some e, all_content, s1)
      | Inr pages \<Rightarrow> page_loop env self cb c initial_data total_pages pages all_content s1))))"

text \<open>One turn of \<^verbatim>\<open>for provider_id, provider_name in self.providers.items()\<close>: the counter
  is advanced, the body runs, and whatever it raises is reported and dropped.\<close>

definition provider_step ::
  "'w env \<Rightarrow> fetcher \<Rightarrow> int \<Rightarrow> 'w callback option \<Rightarrow> int \<Rightarrow> string \<Rightarrow> int \<times> string
     \<Rightarrow> int \<times> dataframe \<times> 'w st \<Rightarrow> int \<times> dataframe \<times> 'w st" where
  "provider_step env self max_pages cb ntotal ct p acc =
     (case acc of (idx, all_content, s) \<Rightarrow>
        (let c = \<lparr>content_type = ct, provider_id = fst p, provider_name = snd p,
                  provider_idx = idx + 1, total_providers = ntotal\<rparr>
         in case provider_body env self max_pages cb c all_content s of
              (None, all_content1, s1) \<Rightarrow> (idx + 1, all_content1, s1)
            | (Some e, all_content1, s1) \<Rightarrow>
                (idx + 1, all_content1, emit (Print_provider_error (snd p) ct e) s1)))"

definition content_type_step ::
  "'w env \<Rightarrow> fetcher \<Rightarrow> int \<Rightarrow> 'w callback option \<Rightarrow> int \<Rightarrow> string
     \<Rightarrow> int \<times> dataframe \<times> 'w st \<Rightarrow> int \<times> dataframe \<times> 'w st" where
  "content_type_step env self max_pages cb ntotal ct acc =
     fold (provider_step env self max_pages cb ntotal ct) (providers self) acc"

text \<open>
  The statements after the loops: the table is built, the file is named after the clock
  and written, and the table is returned with the name. They stand outside both \<^verbatim>\<open>try\<close>
  blocks, so that what \<^verbatim>\<open>pd.DataFrame\<close> or \<^verbatim>\<open>df.to_csv\<close> raises leaves the function.
\<close>

definition save_snapshot ::
  "'w env \<Rightarrow> content_info list \<Rightarrow> 'w st \<Rightarrow> (exn + dataframe \<times> string) \<times> 'w st" where
  "save_snapshot env all_content s =
     (case data_frame env all_content of
        Some e \<Rightarrow> (Inl e, s)
      | None \<Rightarrow>
          (let df = all_content;
               timestamp = strftime_now env (world s);
               filename = ''streaming_content_'' @ timestamp @ ''.csv''
           in case to_csv env df filename (world s) of
                Written text \<Rightarrow>
                  (Inr (df, filename), s\<lparr>files := AList.update filename text (files s)\<rparr>)
              | Write_failed e None \<Rightarrow> (Inl e, s)
              | Write_failed e (Some text) \<Rightarrow>
                  (Inl e, s\<lparr>files := AList.update filename text (files s)\<rparr>)))"

definition build_content_database ::
  "'w env \<Rightarrow> fetcher \<Rightarrow> int \<Rightarrow> 'w callback option \<Rightarrow> 'w st
     \<Rightarrow> (exn + dataframe \<times> string) \<times> 'w st" where
  "build_content_database env self max_pages progress_callback s =
     (let ntotal = int (length (providers self));
          content_types = [''movie'', ''tv'']
      in case fold (content_type_step env self max_pages progress_callback ntotal)
                content_types (0, [], s) of
           (idx, all_content, s1) \<Rightarrow> save_snapshot env all_content s1)"

section \<open>load_or_create_database\<close>

definition listdir :: "'w st \<Rightarrow> string list" where
  "listdir s = map fst (files s)"

definition pd_read_csv :: "'w env \<Rightarrow> 'w st \<Rightarrow> string \<Rightarrow> exn + dataframe" where
  "pd_read_csv env s name =
     (case map_of (files s) name of
        None \<Rightarrow> Inl FileNotFoundError
      | Some text \<Rightarrow> read_csv env text)"

definition csv_files :: "'w st \<Rightarrow> string list" where
  "csv_files s =
     filter (\<lambda>f. startswith f ''streaming_content_'' \<and> endswith f ''.csv'') (listdir s)"

definition load_or_create_database ::
  "'w env \<Rightarrow> string \<Rightarrow> string \<Rightarrow> bool \<Rightarrow> int \<Rightarrow> 'w callback option \<Rightarrow> 'w st
     \<Rightarrow> (exn + dataframe \<times> string) \<times> 'w st" where
  "load_or_create_database env tmdb omdb force_refresh max_pages progress_callback s =
     (if csv_files s \<noteq> [] \<and> \<not> force_refresh then
        (let latest_file = last (sort (csv_files s))
         in case pd_read_csv env s latest_file of
              Inl e \<Rightarrow> (Inl e, s)
            | Inr df \<Rightarrow> (Inr (df, latest_file), s))
      else
        (let fetcher = StreamingDataFetcher tmdb omdb ''US''
         in build_content_database env fetcher max_pages progress_callback s))"

section \<open>Observations on a run\<close>

text \<open>The category shown for a content type, as the dict literal computes it.\<close>

definition type_label :: "string \<Rightarrow> string" where
  "type_label ct = (if ct = ''tv'' then ''TV Show'' else ''Movie'')"

text \<open>A record carries the given category and provider name.\<close>

definition labelled :: "string \<Rightarrow> string \<Rightarrow> content_info \<Rightarrow> bool" where
  "labelled cat prov r =
     (map_of r ''type'' = Some (JStr cat) \<and> map_of r ''provider'' = Some (JStr prov))"

text \<open>A record as one combination emits it: labelled, with the keys of the primary
  identifier and of the title present.\<close>

definition emitted_by :: "string \<Rightarrow> string \<Rightarrow> content_info \<Rightarrow> bool" where
  "emitted_by ct pn r =
     (labelled (type_label ct) pn r \<and> map_of r ''tmdb_id'' \<noteq> None \<and> map_of r ''title'' \<noteq> None)"

text \<open>The pages processed to their end: each one is followed by the one-second pause.\<close>

definition pages_processed :: "event list \<Rightarrow> nat" where
  "pages_processed tr = length (filter (\<lambda>e. e = Sleep 1) tr)"

text \<open>The outbound calls of a trace, and the fractions handed to the progress callback.\<close>

fun outbound_calls :: "event list \<Rightarrow> request list" where
  "outbound_calls [] = []"
| "outbound_calls (Get rq # es) = rq # outbound_calls es"
| "outbound_calls (_ # es) = outbound_calls es"

fun progress_fractions :: "event list \<Rightarrow> real list" where
  "progress_fractions [] = []"
| "progress_fractions (Progress m p # es) = p # progress_fractions es"
| "progress_fractions (_ # es) = progress_fractions es"


text \<open>
  One of the enrichment calls made for an item raises, from the state \<open>w\<close> of the world in
  which the item is reached: the detail lookup, then the external-id lookup, then, when an
  IMDb id came back, the rating lookup.
\<close>

definition enrichment_raises :: "'w env \<Rightarrow> fetcher \<Rightarrow> string \<Rightarrow> json \<Rightarrow> 'w \<Rightarrow> bool" where
  "enrichment_raises env self ct tmdb_id w =
     (case http_get_json env (Details (tmdb_api_key self) ct tmdb_id) w of
        (Inl e, w1) \<Rightarrow> True
      | (Inr details, w1) \<Rightarrow>
     (case http_get_json env (External_ids (tmdb_api_key self) ct tmdb_id) w1 of
        (Inl e, w2) \<Rightarrow> True
      | (Inr external_ids, w2) \<Rightarrow>
     (case dict_get external_ids ''imdb_id'' JNull of
        Inl e \<Rightarrow> False
      | Inr imdb_id \<Rightarrow>
          truthy imdb_id \<and> isl (fst (http_get_json env (Omdb (omdb_api_key self) imdb_id) w2)))))"

section \<open>Sample worlds\<close>

text \<open>
  Strings stand for their UTF-8 bytes. A Python string can hold a lone surrogate such as
  U+D800 (\<^verbatim>\<open>json\<close> decodes the escape \<^verbatim>\<open>\ud800\<close> to it), which UTF-8 cannot encode; it is
  written here as the three bytes an encoder would have to produce for it.
\<close>

definition lone_surrogate :: string where
  "lone_surrogate = [CHR 0xED, CHR 0xA0, CHR 0x80]"

definition encodable :: "content_info \<Rightarrow> bool" where
  "encodable r =
     list_all (\<lambda>kv. case snd kv of JStr t \<Rightarrow> \<not> substring lone_surrogate t | _ \<Rightarrow> True) r"

text \<open>
  A world without memory: each request is answered by a fixed function, the clock shows
  one instant, a table is written as one line per record, and an empty file does not parse
  (pandas raises \<^verbatim>\<open>EmptyDataError\<close> on it). Writing a table that holds a lone surrogate
  raises \<^verbatim>\<open>UnicodeEncodeError\<close> and leaves the file empty.
\<close>

definition stub_env :: "(request \<Rightarrow> exn + json) \<Rightarrow> unit env" where
  "stub_env answer =
     \<lparr>http_get_json = (\<lambda>rq w. (answer rq, w)),
      strftime_now = (\<lambda>w. ''20240101_000000''),
      data_frame = (\<lambda>records. None),
      to_csv = (\<lambda>df filename w.
                  if list_all encodable df then Written (concat (map (\<lambda>r. ''row;'') df))
                  else Write_failed UnicodeEncodeError (Some [])),
      read_csv = (\<lambda>text. if text = [] then Inl ReadCsvError else Inr [])\<rparr>"


definition s0 :: "unit st" where
  "s0 = \<lparr>world = (), files = [], trace = []\<rparr>"

definition matrix_item :: json where
  "matrix_item = JObj [(''id'', JInt 603), (''title'', JStr ''The Matrix'')]"

text \<open>A catalog with one film on Netflix, spread over three pages, and nothing elsewhere.\<close>

fun catalog :: "request \<Rightarrow> exn + json" where
  "catalog (Discover k ct pid reg page) =
     (if ct = ''movie'' \<and> pid = 8
      then Inr (JObj [(''total_pages'', JInt 3), (''results'', JArr [matrix_item])])
      else Inr (JObj [(''total_pages'', JInt 1), (''results'', JArr [])]))"
| "catalog (Details k ct i) =
     Inr (JObj [(''genres'', JArr [JObj [(''name'', JStr ''Action'')]])])"
| "catalog (External_ids k ct i) = Inr (JObj [(''imdb_id'', JStr ''tt0133093'')])"
| "catalog (Omdb k i) = Inr (JObj [(''imdbRating'', JStr ''8.7''), (''imdbVotes'', JStr ''2,100,000'')])"



text \<open>The catalog, with the detail lookup failing.\<close>

fun details_down :: "request \<Rightarrow> exn + json" where
  "details_down (Details k ct i) = Inl RequestException"
| "details_down rq = catalog rq"


text \<open>The discover items carry an identifier only.\<close>

fun untitled :: "request \<Rightarrow> exn + json" where
  "untitled (Discover k ct pid reg page) =
     (if ct = ''movie'' \<and> pid = 8
      then Inr (JObj [(''results'', JArr [JObj [(''id'', JInt 603)]])])
      else Inr (JObj []))"
| "untitled rq = Inr (JObj [])"


text \<open>A callback that accepts every report.\<close>

definition accept_progress :: "unit callback" where
  "accept_progress message fraction w = (None, w)"


text \<open>A working directory holding two snapshots, the older one empty.\<close>

definition two_snapshots :: "unit st" where
  "two_snapshots =
     \<lparr>world = (),
      files = [(''streaming_content_20240601_000000.csv'', ''row;''),
               (''notes.txt'', ''x''),
               (''streaming_content_20240101_010101.csv'', [])],
      trace = []\<rparr>"

text \<open>A working directory holding one snapshot and an empty file whose name fits the
  pattern without carrying a timestamp.\<close>

definition stray_file :: "unit st" where
  "stray_file =
     \<lparr>world = (),
      files = [(''streaming_content_20240601_000000.csv'', ''row;''),
               (''streaming_content_data.csv'', [])],
      trace = []\<rparr>"

text \<open>A working directory whose only snapshot is an empty file.\<close>

definition broken_snapshot :: "unit st" where
  "broken_snapshot =
     \<lparr>world = (), files = [(''streaming_content_20240101_010101.csv'', [])], trace = []\<rparr>"

section \<open>Properties of the steps of a run\<close>

subsection \<open>What the steps leave alone\<close>

lemma http_get_frame:
  "http_get env rq s = (r, s') \<Longrightarrow>
   files s' = files s \<and> pages_processed (trace s') = pages_processed (trace s)"
  by (auto simp: http_get_def pages_processed_def split: prod.splits)

lemma emit_frame [simp]:
  "files (emit e s) = files s"
  "pages_processed (trace (emit e s)) = pages_processed (trace s) + (if e = Sleep 1 then 1 else 0)"
  by (simp_all add: emit_def pages_processed_def)

lemma call_progress_frame:
  "call_progress cb m p s = (r, s') \<Longrightarrow>
   files s' = files s \<and> pages_processed (trace s') = pages_processed (trace s)"
  by (auto simp: call_progress_def pages_processed_def split: option.splits prod.splits)

lemma add_imdb_frame:
  "add_imdb env self iid ci s = (r, s') \<Longrightarrow>
   files s' = files s \<and> pages_processed (trace s') = pages_processed (trace s)"
  by (auto simp: add_imdb_def get_imdb_data_def split: if_splits prod.splits sum.splits
      dest!: http_get_frame)

lemma item_body_frame:
  "item_body env self ct pn item s = (r, s') \<Longrightarrow>
   files s' = files s \<and> pages_processed (trace s') = pages_processed (trace s)"
  by (auto simp: item_body_def get_content_details_def get_external_ids_def
      split: prod.splits sum.splits dest!: http_get_frame add_imdb_frame)

lemma item_loop_frame:
  "item_loop env self ct pn items ac s = (ac', s') \<Longrightarrow>
   files s' = files s \<and> pages_processed (trace s') = pages_processed (trace s)"
proof (induction items arbitrary: ac s)
  case Nil
  then show ?case by simp
next
  case (Cons item items)
  obtain r s1 where b: "item_body env self ct pn item s = (r, s1)"
    by (cases "item_body env self ct pn item s")
  from item_body_frame[OF b]
  have f: "files s1 = files s" "pages_processed (trace s1) = pages_processed (trace s)"
    by simp_all
  show ?case
  proof (cases r)
    case (Inl e)
    with b Cons.prems
    have "item_loop env self ct pn items ac (emit (Sleep (1 / 2)) (emit (Print_item_error e) s1)) = (ac', s')"
      by simp
    from Cons.IH[OF this] f show ?thesis by simp
  next
    case (Inr ci)
    with b Cons.prems
    have "item_loop env self ct pn items (ac @ [ci]) (emit (Sleep (1 / 2)) s1) = (ac', s')"
      by simp
    from Cons.IH[OF this] f show ?thesis by simp
  qed
qed


subsection \<open>The records a combination can emit\<close>

lemma basic_info_shape:
  "basic_info ct pn item tid iid = Inr ci \<Longrightarrow>
   \<exists>t ov rd va po pp. ci = [(''type'', JStr (type_label ct)), (''title'', t), (''overview'', ov),
     (''tmdb_id'', tid), (''imdb_id'', iid), (''provider'', JStr pn), (''release_date'', rd),
     (''tmdb_rating'', va), (''popularity'', po), (''poster_path'', pp)]"
  by (auto simp: basic_info_def type_label_def split: sum.splits)

lemma add_genres_shape:
  "add_genres details ci = Inr ci' \<Longrightarrow> ci' = ci \<or> (\<exists>g. ci' = ci @ [(''genres'', JStr g)])"
  by (auto simp: add_genres_def split: sum.splits bool.splits)

lemma add_imdb_shape:
  "add_imdb env self iid ci s = (Inr ci', s') \<Longrightarrow>
   \<exists>r v. ci' = ci @ [(''imdb_rating'', r), (''imdb_votes'', v)]"
  by (auto simp: add_imdb_def split: sum.splits prod.splits if_splits)

lemma item_body_emitted:
  assumes "item_body env self ct pn item s = (Inr ci, s')"
  shows "emitted_by ct pn ci"
proof -
  from assms obtain tid iid details ci0 ci1 s2 where
    b: "basic_info ct pn item tid iid = Inr ci0" and
    g: "add_genres details ci0 = Inr ci1" and
    i: "add_imdb env self iid ci1 s2 = (Inr ci, s')"
    by (auto simp: item_body_def split: sum.splits prod.splits)
  from basic_info_shape[OF b] add_genres_shape[OF g] add_imdb_shape[OF i]
  show ?thesis by (auto simp: emitted_by_def labelled_def)
qed

lemma item_loop_appends:
  "item_loop env self ct pn items ac s = (ac', s') \<Longrightarrow>
   \<exists>b. ac' = ac @ b \<and> list_all (emitted_by ct pn) b"
proof (induction items arbitrary: ac s)
  case Nil
  then show ?case by simp
next
  case (Cons item items)
  obtain r s1 where body: "item_body env self ct pn item s = (r, s1)"
    by (cases "item_body env self ct pn item s")
  show ?case
  proof (cases r)
    case (Inl e)
    with body Cons.prems Cons.IH show ?thesis by simp
  next
    case (Inr ci)
    with body Cons.prems
    have "item_loop env self ct pn items (ac @ [ci]) (emit (Sleep (1 / 2)) s1) = (ac', s')"
      by simp
    from Cons.IH[OF this] obtain b where
      b: "ac' = (ac @ [ci]) @ b" "list_all (emitted_by ct pn) b"
      by blast
    from body Inr have "emitted_by ct pn ci"
      by (simp add: item_body_emitted)
    with b show ?thesis by (intro exI[of _ "ci # b"]) simp
  qed
qed

subsection \<open>One page\<close>

lemma page_loop_Cons:
  assumes run: "page_loop env self cb c initial_data tp (page # pages) ac s = (r, ac', s')"
  shows "(r \<noteq> None \<and> ac' = ac \<and> files s' = files s
            \<and> pages_processed (trace s') = pages_processed (trace s))
       \<or> (\<exists>b s3. list_all (emitted_by (content_type c) (provider_name c)) b
            \<and> files s3 = files s
            \<and> pages_processed (trace s3) = pages_processed (trace s)
            \<and> page_loop env self cb c initial_data tp pages (ac @ b) (emit (Sleep 1) s3)
                = (r, ac', s'))"
proof -
  obtain r1 s1 where cp: "call_progress cb (Processing (provider_name c) (content_type c) page tp)
      (real_of_int (provider_idx c - 1) / real_of_int (total_providers c)) s = (r1, s1)"
    by (cases "call_progress cb (Processing (provider_name c) (content_type c) page tp)
      (real_of_int (provider_idx c - 1) / real_of_int (total_providers c)) s")
  from call_progress_frame[OF cp]
  have f1: "files s1 = files s" "pages_processed (trace s1) = pages_processed (trace s)"
    by simp_all
  show ?thesis
  proof (cases r1)
    case (Some e)
    with cp run f1 show ?thesis by auto
  next
    case None
    obtain r2 s2 where g: "(if page > 1
        then get_streaming_content env self (content_type c) (provider_id c) page s1
        else (Inr initial_data, s1)) = (r2, s2)"
      by (cases "if page > 1
        then get_streaming_content env self (content_type c) (provider_id c) page s1
        else (Inr initial_data, s1)")
    then have f2: "files s2 = files s" "pages_processed (trace s2) = pages_processed (trace s)"
      using f1 by (auto simp: get_streaming_content_def split: if_splits dest!: http_get_frame)
    show ?thesis
    proof (cases r2)
      case (Inl e)
      with cp None g run f2 show ?thesis by auto
    next
      case data: (Inr data)
      show ?thesis
      proof (cases "dict_get data ''results'' (JArr [])")
        case (Inl e)
        with cp None g data run f2 show ?thesis by auto
      next
        case results: (Inr results)
        show ?thesis
        proof (cases "py_iter results")
          case (Inl e)
          with cp None g data results run f2 show ?thesis by auto
        next
          case items: (Inr items)
          obtain ac1 s3 where
            il: "item_loop env self (content_type c) (provider_name c) items ac s2 = (ac1, s3)"
            by (cases "item_loop env self (content_type c) (provider_name c) items ac s2")
          from item_loop_appends[OF il] obtain b where
            b: "ac1 = ac @ b" "list_all (emitted_by (content_type c) (provider_name c)) b"
            by blast
          from item_loop_frame[OF il] f2
          have f3: "files s3 = files s" "pages_processed (trace s3) = pages_processed (trace s)"
            by simp_all
          from cp None g data results items il run
          have "page_loop env self cb c initial_data tp pages ac1 (emit (Sleep 1) s3) = (r, ac', s')"
            by simp
          with b f3 show ?thesis by blast
        qed
      qed
    qed
  qed
qed

lemma page_loop_frame:
  "page_loop env self cb c initial_data tp pages ac s = (r, ac', s') \<Longrightarrow>
   files s' = files s
   \<and> pages_processed (trace s') \<le> pages_processed (trace s) + length pages
   \<and> (\<exists>b. ac' = ac @ b \<and> list_all (emitted_by (content_type c) (provider_name c)) b)"
proof (induction pages arbitrary: ac s)
  case Nil
  then show ?case by simp
next
  case (Cons page pages)
  from page_loop_Cons[OF Cons.prems] show ?case
  proof (elim disjE exE conjE)
    assume "r \<noteq> None" "ac' = ac" "files s' = files s"
      "pages_processed (trace s') = pages_processed (trace s)"
    then show ?thesis by simp
  next
    fix b s3
    assume b: "list_all (emitted_by (content_type c) (provider_name c)) b"
      and f: "files s3 = files s" "pages_processed (trace s3) = pages_processed (trace s)"
      and rest: "page_loop env self cb c initial_data tp pages (ac @ b) (emit (Sleep 1) s3)
                  = (r, ac', s')"
    from Cons.IH[OF rest] obtain b' where
      "files s' = files (emit (Sleep 1) s3)"
      "pages_processed (trace s')
         \<le> pages_processed (trace (emit (Sleep 1) s3)) + length pages"
      "ac' = (ac @ b) @ b'" "list_all (emitted_by (content_type c) (provider_name c)) b'"
      by blast
    with b f show ?thesis by (intro conjI exI[of _ "b @ b'"]) simp_all
  qed
qed

subsection \<open>One combination\<close>

lemma provider_body_frame:
  assumes "provider_body env self max_pages cb c ac s = (r, ac', s')"
  shows "files s' = files s
   \<and> (\<exists>b. ac' = ac @ b \<and> list_all (emitted_by (content_type c) (provider_name c)) b)"
proof -
  obtain r1 s1 where g: "get_streaming_content env self (content_type c) (provider_id c) 1 s = (r1, s1)"
    by (cases "get_streaming_content env self (content_type c) (provider_id c) 1 s")
  then have f1: "files s1 = files s"
    by (auto simp: get_streaming_content_def dest!: http_get_frame)
  show ?thesis
  proof (cases "\<exists>initial_data tp pages. r1 = Inr initial_data
        \<and> dict_get initial_data ''total_pages'' (JInt 1) = Inr tp
        \<and> (\<exists>total_pages. py_min tp max_pages = Inr total_pages
              \<and> py_range1 total_pages = Inr pages
              \<and> provider_body env self max_pages cb c ac s
                   = page_loop env self cb c initial_data total_pages pages ac s1)")
    case True
    then obtain initial_data total_pages pages where
      "page_loop env self cb c initial_data total_pages pages ac s1 = (r, ac', s')"
      using assms by auto
    from page_loop_frame[OF this] f1 show ?thesis by simp
  next
    case False
    with g assms have "ac' = ac \<and> s' = s1"
      by (auto simp: provider_body_def split: sum.splits)
    with f1 show ?thesis by simp
  qed
qed

lemma provider_step_frame:
  assumes "provider_step env self max_pages cb nt ct p (idx, ac, s) = (idx', ac', s')"
  shows "idx' = idx + 1 \<and> files s' = files s
   \<and> (\<exists>b. ac' = ac @ b \<and> list_all (emitted_by ct (snd p)) b)"
proof -
  define c where "c = \<lparr>content_type = ct, provider_id = fst p, provider_name = snd p,
                  provider_idx = idx + 1, total_providers = nt\<rparr>"
  obtain r ac1 s1 where b: "provider_body env self max_pages cb c ac s = (r, ac1, s1)"
    by (cases "provider_body env self max_pages cb c ac s") auto
  from provider_body_frame[OF b]
  have f: "files s1 = files s" "\<exists>b. ac1 = ac @ b \<and> list_all (emitted_by ct (snd p)) b"
    by (simp_all add: c_def)
  from assms b have "idx' = idx + 1 \<and> ac' = ac1 \<and> files s' = files s1"
    by (auto simp: provider_step_def c_def Let_def split: option.splits)
  with f show ?thesis by simp
qed

lemma providers_fold_frame:
  "fold (provider_step env self max_pages cb nt ct) ps (idx, ac, s) = (idx', ac', s') \<Longrightarrow>
   idx' = idx + int (length ps) \<and> files s' = files s
   \<and> (\<exists>bs. ac' = ac @ concat bs \<and> list_all2 (\<lambda>p b. list_all (emitted_by ct (snd p)) b) ps bs)"
proof (induction ps arbitrary: idx ac s)
  case Nil
  then show ?case by simp
next
  case (Cons p ps)
  obtain idx1 ac1 s1 where
    st: "provider_step env self max_pages cb nt ct p (idx, ac, s) = (idx1, ac1, s1)"
    by (cases "provider_step env self max_pages cb nt ct p (idx, ac, s)") auto
  from provider_step_frame[OF st] obtain b where
    b: "idx1 = idx + 1" "files s1 = files s" "ac1 = ac @ b" "list_all (emitted_by ct (snd p)) b"
    by blast
  from Cons.prems st
  have "fold (provider_step env self max_pages cb nt ct) ps (idx1, ac1, s1) = (idx', ac', s')"
    by simp
  from Cons.IH[OF this] obtain bs where
    bs: "idx' = idx1 + int (length ps)" "files s' = files s1" "ac' = ac1 @ concat bs"
      "list_all2 (\<lambda>p b. list_all (emitted_by ct (snd p)) b) ps bs"
    by blast
  with b show ?case by (intro conjI exI[of _ "b # bs"]) simp_all
qed

subsection \<open>Every call failing\<close>

lemma provider_step_offline:
  assumes off: "\<forall>rq w. isl (fst (http_get_json env rq w))"
    and st: "provider_step env self max_pages cb nt ct p (idx, ac, s) = (idx', ac', s')"
  shows "ac' = ac"
proof -
  define c where "c = \<lparr>content_type = ct, provider_id = fst p, provider_name = snd p,
                  provider_idx = idx + 1, total_providers = nt\<rparr>"
  obtain r1 s1 where g: "get_streaming_content env self (content_type c) (provider_id c) 1 s = (r1, s1)"
    by (cases "get_streaming_content env self (content_type c) (provider_id c) 1 s")
  from off have "isl (fst (http_get_json env
      (Discover (tmdb_api_key self) (content_type c) (provider_id c) (region self) 1) (world s)))"
    by blast
  with g have "isl r1"
    by (auto simp: get_streaming_content_def http_get_def split: prod.splits)
  then obtain e where "r1 = Inl e" by (cases r1) auto
  with g have "provider_body env self max_pages cb c ac s = (Some e, ac, s1)"
    by (simp add: provider_body_def)
  with st show ?thesis
    by (simp add: provider_step_def c_def Let_def)
qed

lemma providers_fold_offline:
  assumes off: "\<forall>rq w. isl (fst (http_get_json env rq w))"
  shows "fold (provider_step env self max_pages cb nt ct) ps (idx, ac, s) = (idx', ac', s')
    \<Longrightarrow> ac' = ac"
proof (induction ps arbitrary: idx s)
  case Nil
  then show ?case by simp
next
  case (Cons p ps)
  obtain idx1 ac1 s1 where
    st: "provider_step env self max_pages cb nt ct p (idx, ac, s) = (idx1, ac1, s1)"
    by (cases "provider_step env self max_pages cb nt ct p (idx, ac, s)") auto
  from provider_step_offline[OF off st] have "ac1 = ac" .
  with Cons.prems st Cons.IH show ?case by simp
qed

subsection \<open>Saving the table\<close>

lemma save_snapshot_returns:
  assumes "save_snapshot env ac s1 = (Inr (df, filename), s')"
  shows "df = ac
       \<and> filename = ''streaming_content_'' @ strftime_now env (world s1) @ ''.csv''
       \<and> data_frame env ac = None
       \<and> world s' = world s1
       \<and> (\<exists>text. to_csv env ac filename (world s1) = Written text
              \<and> files s' = AList.update filename text (files s1))"
  using assms
  by (auto simp: save_snapshot_def Let_def split: option.splits write_result.splits)



subsection \<open>The whole run\<close>

text \<open>The loops gather the records in blocks, one per combination, and leave the files
  alone; the records are then saved.\<close>

lemma build_content_database_run:
  "\<exists>bs1 bs2 s1.
     build_content_database env self max_pages cb s
       = save_snapshot env (concat bs1 @ concat bs2) s1
     \<and> files s1 = files s
     \<and> list_all2 (\<lambda>p b. list_all (emitted_by ''movie'' (snd p)) b) (providers self) bs1
     \<and> list_all2 (\<lambda>p b. list_all (emitted_by ''tv'' (snd p)) b) (providers self) bs2
     \<and> ((\<forall>rq w. isl (fst (http_get_json env rq w))) \<longrightarrow> concat bs1 @ concat bs2 = [])"
proof -
  define nt where "nt = int (length (providers self))"
  obtain idx1 ac1 s1 where
    m: "fold (provider_step env self max_pages cb nt ''movie'') (providers self) (0, [], s)
          = (idx1, ac1, s1)"
    by (cases "fold (provider_step env self max_pages cb nt ''movie'') (providers self) (0, [], s)")
       auto
  obtain idx2 ac2 s2 where
    t: "fold (provider_step env self max_pages cb nt ''tv'') (providers self) (idx1, ac1, s1)
          = (idx2, ac2, s2)"
    by (cases "fold (provider_step env self max_pages cb nt ''tv'') (providers self) (idx1, ac1, s1)")
       auto
  from providers_fold_frame[OF m] obtain bs1 where
    1: "files s1 = files s" "ac1 = concat bs1"
       "list_all2 (\<lambda>p b. list_all (emitted_by ''movie'' (snd p)) b) (providers self) bs1"
    by auto
  from providers_fold_frame[OF t] obtain bs2 where
    2: "files s2 = files s1" "ac2 = ac1 @ concat bs2"
       "list_all2 (\<lambda>p b. list_all (emitted_by ''tv'' (snd p)) b) (providers self) bs2"
    by auto
  have off: "ac2 = []" if "\<forall>rq w. isl (fst (http_get_json env rq w))"
    using providers_fold_offline[OF that m] providers_fold_offline[OF that t] by simp
  from m t have "build_content_database env self max_pages cb s = save_snapshot env ac2 s2"
    by (simp add: build_content_database_def content_type_step_def nt_def Let_def)
  with 1 2 off show ?thesis by (intro exI[of _ bs1] exI[of _ bs2] exI[of _ s2]) simp
qed

text \<open>What a return of the function tells.\<close>

lemma build_content_database_returns:
  assumes "build_content_database env self max_pages cb s = (Inr (df, filename), s')"
  shows "\<exists>bs1 bs2 text.
       df = concat bs1 @ concat bs2
     \<and> list_all2 (\<lambda>p b. list_all (emitted_by ''movie'' (snd p)) b) (providers self) bs1
     \<and> list_all2 (\<lambda>p b. list_all (emitted_by ''tv'' (snd p)) b) (providers self) bs2
     \<and> filename = ''streaming_content_'' @ strftime_now env (world s') @ ''.csv''
     \<and> to_csv env df filename (world s') = Written text
     \<and> files s' = AList.update filename text (files s)"
proof -
  from build_content_database_run[of env self max_pages cb s] obtain bs1 bs2 s1 where
    run: "build_content_database env self max_pages cb s
            = save_snapshot env (concat bs1 @ concat bs2) s1"
    and f: "files s1 = files s"
    and 1: "list_all2 (\<lambda>p b. list_all (emitted_by ''movie'' (snd p)) b) (providers self) bs1"
    and 2: "list_all2 (\<lambda>p b. list_all (emitted_by ''tv'' (snd p)) b) (providers self) bs2"
    by blast
  from run assms have "save_snapshot env (concat bs1 @ concat bs2) s1 = (Inr (df, filename), s')"
    by simp
  from save_snapshot_returns[OF this] f 1 2 show ?thesis by auto
qed

section \<open>Claims about build_content_database\<close>




text \<open>
  Claim C3 says that \<open>build_content_database\<close> writes no snapshot file. Counterexample: run
  on the sample catalog in an empty directory, it leaves the snapshot file behind.
\<close>

theorem C3_counterexample:
  "files s0 = []
   \<and> files (snd (build_content_database (stub_env catalog)
        (StreamingDataFetcher ''k'' ''o'' ''US'') 1 None s0))
      = [(''streaming_content_20240101_000000.csv'', ''row;'')]"
  by code_simp

text \<open>
  Claim C3, amended. \<open>build_content_database\<close> itself persists the table: when it returns
  the table with a file name, the name is \<^verbatim>\<open>streaming_content_<timestamp>.csv\<close> and that
  file holds the text \<^verbatim>\<open>df.to_csv\<close> wrote for the table; the directory is otherwise as it
  was.
\<close>

theorem C3_build_writes_snapshot:
  assumes "build_content_database env self max_pages cb s = (Inr (df, filename), s')"
  shows "filename = ''streaming_content_'' @ strftime_now env (world s') @ ''.csv''
       \<and> (\<exists>text. to_csv env df filename (world s') = Written text
              \<and> files s' = AList.update filename text (files s)
              \<and> map_of (files s') filename = Some text)"
proof -
  from build_content_database_returns[OF assms] obtain body where
    "filename = ''streaming_content_'' @ strftime_now env (world s') @ ''.csv''"
    "to_csv env df filename (world s') = Written body"
    "files s' = AList.update filename body (files s)"
    by blast
  then show ?thesis by (simp add: update_conv')
qed

text \<open>Witness for C3, amended, on the sample catalog in an empty directory.\<close>

theorem C3_build_writes_snapshot_witness:
  "fst (build_content_database (stub_env catalog) (StreamingDataFetcher ''k'' ''o'' ''US'')
          1 None s0)
     = Inr ([[(''type'', JStr ''Movie''), (''title'', JStr ''The Matrix''),
              (''overview'', JNull), (''tmdb_id'', JInt 603), (''imdb_id'', JStr ''tt0133093''),
              (''provider'', JStr ''Netflix''), (''release_date'', JNull),
              (''tmdb_rating'', JNull), (''popularity'', JNull), (''poster_path'', JNull),
              (''genres'', JStr ''Action''), (''imdb_rating'', JStr ''8.7''),
              (''imdb_votes'', JStr ''2,100,000'')]],
            ''streaming_content_20240101_000000.csv'')
   \<and> map_of (files (snd (build_content_database (stub_env catalog)
         (StreamingDataFetcher ''k'' ''o'' ''US'') 1 None s0)))
       ''streaming_content_20240101_000000.csv'' = Some ''row;''"
proof -
  let ?run = "build_content_database (stub_env catalog) (StreamingDataFetcher ''k'' ''o'' ''US'')
          1 None s0"
  let ?df = "[[(''type'', JStr ''Movie''), (''title'', JStr ''The Matrix''),
              (''overview'', JNull), (''tmdb_id'', JInt 603), (''imdb_id'', JStr ''tt0133093''),
              (''provider'', JStr ''Netflix''), (''release_date'', JNull),
              (''tmdb_rating'', JNull), (''popularity'', JNull), (''poster_path'', JNull),
              (''genres'', JStr ''Action''), (''imdb_rating'', JStr ''8.7''),
              (''imdb_votes'', JStr ''2,100,000'')]]"
  have r: "fst ?run = Inr (?df, ''streaming_content_20240101_000000.csv'')"
    by code_simp
  then have run: "?run = (Inr (?df, ''streaming_content_20240101_000000.csv''), snd ?run)"
    by (metis prod.collapse)
  from C3_build_writes_snapshot[OF run] obtain body where
    w: "to_csv (stub_env catalog) ?df ''streaming_content_20240101_000000.csv'' (world (snd ?run))
          = Written body"
    and f: "map_of (files (snd ?run)) ''streaming_content_20240101_000000.csv'' = Some body"
    by blast
  have "to_csv (stub_env catalog) ?df ''streaming_content_20240101_000000.csv'' (world (snd ?run))
          = Written ''row;''"
    by code_simp
  with w have "body = ''row;''" by simp
  with r f show ?thesis by simp
qed

text \<open>
  Claim C7 says that every returned record has a non-null title. Counterexample: a discover
  item that carries an identifier only yields a record whose title is \<^verbatim>\<open>None\<close>.
\<close>

theorem C7_counterexample:
  "fst (build_content_database (stub_env untitled) (StreamingDataFetcher ''k'' ''o'' ''US'') 2 None s0)
     = Inr ([[(''type'', JStr ''Movie''), (''title'', JNull), (''overview'', JNull),
              (''tmdb_id'', JInt 603), (''imdb_id'', JNull), (''provider'', JStr ''Netflix''),
              (''release_date'', JNull), (''tmdb_rating'', JNull), (''popularity'', JNull),
              (''poster_path'', JNull), (''imdb_rating'', JStr ''N/A''),
              (''imdb_votes'', JStr ''N/A'')]],
            ''streaming_content_20240101_000000.csv'')"
  by code_simp
lemma list_all2_emitted_concat:
  assumes "list_all2 (\<lambda>p b. list_all (emitted_by ct (snd p)) b) ps bs"
  shows "list_all (\<lambda>r. list_ex (\<lambda>p. emitted_by ct (snd p) r) ps) (concat bs)"
  using assms
proof (induction rule: list_all2_induct)
  case Nil
  then show ?case by simp
next
  case (Cons p ps b bs)
  then show ?case by (auto simp: list_all_iff list_ex_iff)
qed

text \<open>
  Claim C7, amended. Every record of a returned table has its category set to \<^verbatim>\<open>Movie\<close> or
  \<^verbatim>\<open>TV Show\<close> and its provider set to one of the configured provider names; the keys of
  the primary identifier and of the title are present, with the values the discover item
  carried (\<^verbatim>\<open>None\<close> for a missing title).
\<close>

theorem C7_category_and_provider_populated:
  assumes "build_content_database env self max_pages cb s = (Inr (df, filename), s')"
  shows "list_all (\<lambda>r.
           (map_of r ''type'' = Some (JStr ''Movie'') \<or> map_of r ''type'' = Some (JStr ''TV Show''))
         \<and> list_ex (\<lambda>p. map_of r ''provider'' = Some (JStr (snd p))) (providers self)
         \<and> map_of r ''tmdb_id'' \<noteq> None
         \<and> map_of r ''title'' \<noteq> None) df"
proof -
  from build_content_database_returns[OF assms] obtain bs1 bs2 where
    df: "df = concat bs1 @ concat bs2"
    and 1: "list_all2 (\<lambda>p b. list_all (emitted_by ''movie'' (snd p)) b) (providers self) bs1"
    and 2: "list_all2 (\<lambda>p b. list_all (emitted_by ''tv'' (snd p)) b) (providers self) bs2"
    by blast
  from list_all2_emitted_concat[OF 1] list_all2_emitted_concat[OF 2]
  have "list_all (\<lambda>r.
           (map_of r ''type'' = Some (JStr ''Movie'') \<or> map_of r ''type'' = Some (JStr ''TV Show''))
         \<and> list_ex (\<lambda>p. map_of r ''provider'' = Some (JStr (snd p))) (providers self)
         \<and> map_of r ''tmdb_id'' \<noteq> None
         \<and> map_of r ''title'' \<noteq> None) (concat bs1 @ concat bs2)"
    by (auto simp: list_all_iff list_ex_iff emitted_by_def labelled_def type_label_def)
  with df show ?thesis by simp
qed

text \<open>Witness for C7, amended, on the sample catalog: the run returns one record, for
  which the four properties hold.\<close>

theorem C7_category_and_provider_populated_witness:
  "\<exists>r filename s'.
     build_content_database (stub_env catalog) (StreamingDataFetcher ''k'' ''o'' ''US'') 1 None s0
       = (Inr ([r], filename), s')
     \<and> map_of r ''type'' = Some (JStr ''Movie'')
     \<and> map_of r ''provider'' = Some (JStr ''Netflix'')
     \<and> map_of r ''tmdb_id'' \<noteq> None
     \<and> map_of r ''title'' \<noteq> None"
proof -
  let ?run = "build_content_database (stub_env catalog) (StreamingDataFetcher ''k'' ''o'' ''US'')
          1 None s0"
  let ?r = "[(''type'', JStr ''Movie''), (''title'', JStr ''The Matrix''),
             (''overview'', JNull), (''tmdb_id'', JInt 603), (''imdb_id'', JStr ''tt0133093''),
             (''provider'', JStr ''Netflix''), (''release_date'', JNull),
             (''tmdb_rating'', JNull), (''popularity'', JNull), (''poster_path'', JNull),
             (''genres'', JStr ''Action''), (''imdb_rating'', JStr ''8.7''),
             (''imdb_votes'', JStr ''2,100,000'')]"
  have "fst ?run = Inr ([?r], ''streaming_content_20240101_000000.csv'')"
    by code_simp
  then have run: "?run = (Inr ([?r], ''streaming_content_20240101_000000.csv''), snd ?run)"
    by (metis prod.collapse)
  from C7_category_and_provider_populated[OF run]
  have "(map_of ?r ''type'' = Some (JStr ''Movie'') \<or> map_of ?r ''type'' = Some (JStr ''TV Show''))
      \<and> map_of ?r ''tmdb_id'' \<noteq> None \<and> map_of ?r ''title'' \<noteq> None"
    by simp
  with run show ?thesis by (intro exI[of _ ?r]) auto
qed

text \<open>
  Claim C10. In a returned sequence the records come in twelve consecutive blocks, one
  per combination: first the six \<^verbatim>\<open>Movie\<close> blocks, then the six \<^verbatim>\<open>TV Show\<close> blocks, and
  within each category in the order Netflix, Apple TV, Amazon Prime, Disney+, HBO Max,
  Hulu. Every record of a block carries the category and the provider of its block.
\<close>

theorem C10_records_grouped_in_fixed_order:
  assumes "build_content_database env (StreamingDataFetcher tmdb omdb reg) max_pages cb s
             = (Inr (df, filename), s')"
  shows "\<exists>blocks.
       df = concat blocks
     \<and> list_all2 (\<lambda>cp b. list_all (labelled (fst cp) (snd cp)) b)
          [(''Movie'', ''Netflix''), (''Movie'', ''Apple TV''), (''Movie'', ''Amazon Prime''),
           (''Movie'', ''Disney+''), (''Movie'', ''HBO Max''), (''Movie'', ''Hulu''),
           (''TV Show'', ''Netflix''), (''TV Show'', ''Apple TV''), (''TV Show'', ''Amazon Prime''),
           (''TV Show'', ''Disney+''), (''TV Show'', ''HBO Max''), (''TV Show'', ''Hulu'')]
          blocks"
proof -
  let ?self = "StreamingDataFetcher tmdb omdb reg"
  from build_content_database_returns[OF assms] obtain bs1 bs2 where
    df: "df = concat bs1 @ concat bs2"
    and 1: "list_all2 (\<lambda>p b. list_all (emitted_by ''movie'' (snd p)) b) (providers ?self) bs1"
    and 2: "list_all2 (\<lambda>p b. list_all (emitted_by ''tv'' (snd p)) b) (providers ?self) bs2"
    by blast
  have m: "list_all2 (\<lambda>cp b. list_all (labelled (fst cp) (snd cp)) b)
            (map (\<lambda>p. (''Movie'', snd p)) (providers ?self)) bs1"
    unfolding list_all2_map1
    by (rule list_all2_mono[OF 1]) (simp add: emitted_by_def type_label_def list_all_iff)
  have t: "list_all2 (\<lambda>cp b. list_all (labelled (fst cp) (snd cp)) b)
            (map (\<lambda>p. (''TV Show'', snd p)) (providers ?self)) bs2"
    unfolding list_all2_map1
    by (rule list_all2_mono[OF 2]) (simp add: emitted_by_def type_label_def list_all_iff)
  from list_all2_appendI[OF m t]
  have "list_all2 (\<lambda>cp b. list_all (labelled (fst cp) (snd cp)) b)
          [(''Movie'', ''Netflix''), (''Movie'', ''Apple TV''), (''Movie'', ''Amazon Prime''),
           (''Movie'', ''Disney+''), (''Movie'', ''HBO Max''), (''Movie'', ''Hulu''),
           (''TV Show'', ''Netflix''), (''TV Show'', ''Apple TV''), (''TV Show'', ''Amazon Prime''),
           (''TV Show'', ''Disney+''), (''TV Show'', ''HBO Max''), (''TV Show'', ''Hulu'')]
          (bs1 @ bs2)"
    by (simp add: StreamingDataFetcher_def)
  moreover from df have "df = concat (bs1 @ bs2)" by simp
  ultimately show ?thesis by blast
qed

text \<open>Witness for C10 on the sample catalog: the returned table holds the one Netflix
  film and is the concatenation of twelve blocks, of which the first holds records of
  Netflix films only.\<close>

theorem C10_records_grouped_in_fixed_order_witness:
  "\<exists>blocks r.
     fst (build_content_database (stub_env catalog) (StreamingDataFetcher ''k'' ''o'' ''US'')
            1 None s0)
       = Inr (concat blocks, ''streaming_content_20240101_000000.csv'')
     \<and> concat blocks = [r]
     \<and> length blocks = 12
     \<and> list_all (labelled ''Movie'' ''Netflix'') (hd blocks)"
proof -
  let ?run = "build_content_database (stub_env catalog) (StreamingDataFetcher ''k'' ''o'' ''US'')
          1 None s0"
  let ?r = "[(''type'', JStr ''Movie''), (''title'', JStr ''The Matrix''),
             (''overview'', JNull), (''tmdb_id'', JInt 603), (''imdb_id'', JStr ''tt0133093''),
             (''provider'', JStr ''Netflix''), (''release_date'', JNull),
             (''tmdb_rating'', JNull), (''popularity'', JNull), (''poster_path'', JNull),
             (''genres'', JStr ''Action''), (''imdb_rating'', JStr ''8.7''),
             (''imdb_votes'', JStr ''2,100,000'')]"
  have r: "fst ?run = Inr ([?r], ''streaming_content_20240101_000000.csv'')"
    by code_simp
  then have run: "?run = (Inr ([?r], ''streaming_content_20240101_000000.csv''), snd ?run)"
    by (metis prod.collapse)
  from C10_records_grouped_in_fixed_order[OF run] obtain blocks where
    df: "[?r] = concat blocks"
    and order: "list_all2 (\<lambda>cp b. list_all (labelled (fst cp) (snd cp)) b)
          [(''Movie'', ''Netflix''), (''Movie'', ''Apple TV''), (''Movie'', ''Amazon Prime''),
           (''Movie'', ''Disney+''), (''Movie'', ''HBO Max''), (''Movie'', ''Hulu''),
           (''TV Show'', ''Netflix''), (''TV Show'', ''Apple TV''), (''TV Show'', ''Amazon Prime''),
           (''TV Show'', ''Disney+''), (''TV Show'', ''HBO Max''), (''TV Show'', ''Hulu'')]
          blocks"
    by blast
  from list_all2_lengthD[OF order] have len: "length blocks = 12" by simp
  from order have "list_all (labelled ''Movie'' ''Netflix'') (hd blocks)"
    by (cases blocks) simp_all
  with r df len show ?thesis by (intro exI[of _ blocks] exI[of _ ?r]) simp
qed

section \<open>Claims about load_or_create_database\<close>




text \<open>
  Claim C5 says that a snapshot that fails to load makes \<open>load_or_create_database\<close> fall
  through to a rebuild. Counterexample: with an empty snapshot file as the only snapshot,
  the parser's error is the result, and nothing is fetched or written.
\<close>

theorem C5_counterexample:
  "load_or_create_database (stub_env catalog) ''k'' ''o'' False 2 None broken_snapshot
     = (Inl ReadCsvError, broken_snapshot)"
  by code_simp

text \<open>
  Claim C5, amended. When \<open>force_refresh\<close> is false and a snapshot file name is found but
  loading it fails, \<open>load_or_create_database\<close> raises the load error to its caller: no
  rebuild is attempted, no outbound call is made and no file is written.
\<close>

theorem C5_load_error_propagates:
  assumes "\<not> force_refresh"
    and "csv_files s \<noteq> []"
    and "pd_read_csv env s (last (sort (csv_files s))) = Inl e"
  shows "load_or_create_database env tmdb omdb force_refresh max_pages cb s = (Inl e, s)"
  using assms by (simp add: load_or_create_database_def)

text \<open>Witness for C5, amended, in the directory whose only snapshot is empty.\<close>

theorem C5_load_error_propagates_witness:
  "\<not> False \<and> csv_files broken_snapshot \<noteq> []
   \<and> pd_read_csv (stub_env catalog) broken_snapshot (last (sort (csv_files broken_snapshot)))
       = Inl ReadCsvError
   \<and> load_or_create_database (stub_env catalog) ''k'' ''o'' False 2 None broken_snapshot
       = (Inl ReadCsvError, broken_snapshot)"
proof -
  have h1: "\<not> False" by simp
  have h2: "csv_files broken_snapshot \<noteq> []" by code_simp
  have h3: "pd_read_csv (stub_env catalog) broken_snapshot
      (last (sort (csv_files broken_snapshot))) = Inl ReadCsvError"
    by code_simp
  from C5_load_error_propagates[OF h1 h2 h3] h2 h3 show ?thesis by simp
qed

subsection \<open>The order of file names\<close>

lemma sorted_le_last:
  fixes xs :: "'a::linorder list"
  shows "sorted xs \<Longrightarrow> x \<in> set xs \<Longrightarrow> x \<le> last xs"
  by (induction xs) auto

lemma append_le_cancel:
  fixes x y :: "'a::linorder list"
  shows "p @ x \<le> p @ y \<longleftrightarrow> x \<le> y"
  by (induction p) auto

lemma le_before_common_suffix:
  fixes x y :: "'a::linorder list"
  shows "length x = length y \<Longrightarrow> x @ sfx \<le> y @ sfx \<Longrightarrow> x \<le> y"
proof (induction x arbitrary: y)
  case Nil
  then show ?case by simp
next
  case (Cons a x)
  then obtain b y' where y: "y = b # y'" by (cases y) auto
  with Cons.prems have "a < b \<or> a = b \<and> x @ sfx \<le> y' @ sfx" by simp
  with Cons.IH[of y'] Cons.prems y show ?case by auto
qed

lemma fits_pattern:
  "startswith (p @ t @ sfx) p \<and> endswith (p @ t @ sfx) sfx"
  by simp

text \<open>
  Claim C9 says that the file chosen is the snapshot with the most recent timestamp and
  that its loaded table is returned. Counterexample: beside a snapshot that loads, the
  directory holds an empty file named \<^verbatim>\<open>streaming_content_data.csv\<close>. This name fits the
  pattern and is the greatest, so it is chosen; it does not load, and the call raises
  instead of returning a table.
\<close>

theorem C9_counterexample:
  "csv_files stray_file \<noteq> []
   \<and> last (sort (csv_files stray_file)) = ''streaming_content_data.csv''
   \<and> pd_read_csv (stub_env catalog) stray_file ''streaming_content_20240601_000000.csv'' = Inr []
   \<and> load_or_create_database (stub_env catalog) ''k'' ''o'' False 2 None stray_file
       = (Inl ReadCsvError, stray_file)"
  by code_simp

text \<open>
  Claim C9, amended. When \<open>force_refresh\<close> is false and at least one file name of the
  directory starts with \<^verbatim>\<open>streaming_content_\<close> and ends with \<^verbatim>\<open>.csv\<close>, the file chosen is one
  of those names and is the greatest of them in lexicographic order. Among the matching
  names of its own length it is the one with the greatest timestamp part; nothing asks
  that part to be a timestamp. If \<^verbatim>\<open>pd.read_csv\<close> loads the chosen file, the loaded table is
  returned with that name; if it raises, the error is raised to the caller. Either way the
  state is left as it was: no outbound call is made and nothing is written.
\<close>

theorem C9_latest_snapshot_reused:
  assumes "\<not> force_refresh"
    and "csv_files s \<noteq> []"
  shows "\<exists>latest.
           latest \<in> set (listdir s)
         \<and> startswith latest ''streaming_content_'' \<and> endswith latest ''.csv''
         \<and> list_all (\<lambda>f. startswith f ''streaming_content_'' \<and> endswith f ''.csv''
                          \<longrightarrow> f \<le> latest) (listdir s)
         \<and> (\<forall>t t'. latest = ''streaming_content_'' @ t @ ''.csv''
                    \<and> ''streaming_content_'' @ t' @ ''.csv'' \<in> set (listdir s)
                    \<and> length t' = length t
                  \<longrightarrow> t' \<le> t)
         \<and> (\<forall>df. pd_read_csv env s latest = Inr df
                \<longrightarrow> load_or_create_database env tmdb omdb force_refresh max_pages cb s
                      = (Inr (df, latest), s))
         \<and> (\<forall>e. pd_read_csv env s latest = Inl e
                \<longrightarrow> load_or_create_database env tmdb omdb force_refresh max_pages cb s
                      = (Inl e, s))
         \<and> outbound_calls (trace (snd (load_or_create_database env tmdb omdb force_refresh
               max_pages cb s))) = outbound_calls (trace s)"
proof -
  let ?latest = "last (sort (csv_files s))"
  let ?run = "load_or_create_database env tmdb omdb force_refresh max_pages cb s"
  from assms(2) have "sort (csv_files s) \<noteq> []"
    by (metis length_0_conv length_sort)
  then have "?latest \<in> set (sort (csv_files s))"
    by (rule last_in_set)
  then have mem: "?latest \<in> set (csv_files s)" by simp
  have le: "f \<le> ?latest" if "f \<in> set (csv_files s)" for f
    using that sorted_le_last[of "sort (csv_files s)" f] by simp
  have stamp: "t' \<le> t"
    if "?latest = ''streaming_content_'' @ t @ ''.csv''"
      and "''streaming_content_'' @ t' @ ''.csv'' \<in> set (listdir s)"
      and "length t' = length t" for t t'
  proof -
    from that(2) fits_pattern[of "''streaming_content_''" t' "''.csv''"]
    have "''streaming_content_'' @ t' @ ''.csv'' \<in> set (csv_files s)"
      unfolding csv_files_def by simp
    from le[OF this] that(1)
    have "''streaming_content_'' @ t' @ ''.csv'' \<le> ''streaming_content_'' @ t @ ''.csv''"
      by simp
    then have "t' @ ''.csv'' \<le> t @ ''.csv''"
      by (simp only: append_le_cancel)
    with that(3) show ?thesis by (rule le_before_common_suffix)
  qed
  from assms have run: "?run
      = (case pd_read_csv env s ?latest of Inl e \<Rightarrow> Inl e | Inr df \<Rightarrow> Inr (df, ?latest), s)"
    by (simp add: load_or_create_database_def split: sum.splits)
  have loaded: "?run = (Inr (df, ?latest), s)" if "pd_read_csv env s ?latest = Inr df" for df
    using run that by simp
  have failed: "?run = (Inl e, s)" if "pd_read_csv env s ?latest = Inl e" for e
    using run that by simp
  from run have calls: "outbound_calls (trace (snd ?run)) = outbound_calls (trace s)"
    by simp
  from mem have fits: "?latest \<in> set (listdir s)"
      "startswith ?latest ''streaming_content_''" "endswith ?latest ''.csv''"
    by (simp_all add: csv_files_def)
  from le have greatest: "list_all (\<lambda>f. startswith f ''streaming_content_'' \<and> endswith f ''.csv''
                          \<longrightarrow> f \<le> ?latest) (listdir s)"
    by (simp add: csv_files_def list_all_iff)
  from fits greatest stamp loaded failed calls show ?thesis
    by (intro exI[of _ ?latest]) blast
qed

text \<open>Witness for C9, amended. Of two snapshots the later one is loaded and returned,
  its timestamp part is the greater one, and nothing is fetched; where the only snapshot
  does not load, the error is the result.\<close>

theorem C9_latest_snapshot_reused_witness:
  "\<not> False \<and> csv_files two_snapshots \<noteq> [] \<and> csv_files broken_snapshot \<noteq> []
   \<and> load_or_create_database (stub_env catalog) ''k'' ''o'' False 2 None two_snapshots
       = (Inr ([], ''streaming_content_20240601_000000.csv''), two_snapshots)
   \<and> ''20240101_010101'' \<le> ''20240601_000000''
   \<and> load_or_create_database (stub_env catalog) ''k'' ''o'' False 2 None broken_snapshot
       = (Inl ReadCsvError, broken_snapshot)"
proof -
  have h1: "\<not> False" by simp
  have h2: "csv_files two_snapshots \<noteq> []" by code_simp
  have h3: "csv_files broken_snapshot \<noteq> []" by code_simp
  from C9_latest_snapshot_reused[OF h1 h2, of "stub_env catalog" "''k''" "''o''" 2 None]
  obtain latest where
    "latest \<in> set (listdir two_snapshots)"
    "list_all (\<lambda>f. startswith f ''streaming_content_'' \<and> endswith f ''.csv''
                          \<longrightarrow> f \<le> latest) (listdir two_snapshots)"
    "startswith latest ''streaming_content_''" "endswith latest ''.csv''"
    and stamp: "\<forall>t t'. latest = ''streaming_content_'' @ t @ ''.csv''
                    \<and> ''streaming_content_'' @ t' @ ''.csv'' \<in> set (listdir two_snapshots)
                    \<and> length t' = length t
                  \<longrightarrow> t' \<le> t"
    and loaded: "\<forall>df. pd_read_csv (stub_env catalog) two_snapshots latest = Inr df
        \<longrightarrow> load_or_create_database (stub_env catalog) ''k'' ''o'' False 2 None two_snapshots
             = (Inr (df, latest), two_snapshots)"
    by blast
  then have l: "latest = ''streaming_content_20240601_000000.csv''"
    by (auto simp: listdir_def two_snapshots_def)
  have "pd_read_csv (stub_env catalog) two_snapshots ''streaming_content_20240601_000000.csv''
      = Inr []"
    by code_simp
  with loaded l
  have run: "load_or_create_database (stub_env catalog) ''k'' ''o'' False 2 None two_snapshots
       = (Inr ([], ''streaming_content_20240601_000000.csv''), two_snapshots)"
    by simp
  have "latest = ''streaming_content_'' @ ''20240601_000000'' @ ''.csv''
      \<and> ''streaming_content_'' @ ''20240101_010101'' @ ''.csv'' \<in> set (listdir two_snapshots)
      \<and> length ''20240101_010101'' = length ''20240601_000000''"
    using l by (simp add: listdir_def two_snapshots_def)
  with stamp have order: "''20240101_010101'' \<le> ''20240601_000000''"
    by blast
  from C9_latest_snapshot_reused[OF h1 h3, of "stub_env catalog" "''k''" "''o''" 2 None]
  obtain latest' where
    "latest' \<in> set (listdir broken_snapshot)"
    and failed: "\<forall>e. pd_read_csv (stub_env catalog) broken_snapshot latest' = Inl e
        \<longrightarrow> load_or_create_database (stub_env catalog) ''k'' ''o'' False 2 None broken_snapshot
             = (Inl e, broken_snapshot)"
    by blast
  then have "latest' = ''streaming_content_20240101_010101.csv''"
    by (simp add: listdir_def broken_snapshot_def)
  moreover have "pd_read_csv (stub_env catalog) broken_snapshot
      ''streaming_content_20240101_010101.csv'' = Inl ReadCsvError"
    by code_simp
  ultimately
  have "load_or_create_database (stub_env catalog) ''k'' ''o'' False 2 None broken_snapshot
       = (Inl ReadCsvError, broken_snapshot)"
    using failed by simp
  with h1 h2 h3 run order show ?thesis by blast
qed

section \<open>Claims about items and pages\<close>

lemma item_body_raises:
  assumes id: "subscript item ''id'' = Inr tmdb_id"
    and raises: "enrichment_raises env self ct tmdb_id (world s)"
  shows "\<exists>e s1. item_body env self ct pn item s = (Inl e, s1)"
proof -
  obtain r1 w1 where d: "http_get_json env (Details (tmdb_api_key self) ct tmdb_id) (world s) = (r1, w1)"
    by (cases "http_get_json env (Details (tmdb_api_key self) ct tmdb_id) (world s)")
  show ?thesis
  proof (cases r1)
    case (Inl e)
    with id d show ?thesis
      by (simp add: item_body_def get_content_details_def http_get_def)
  next
    case details: (Inr details)
    define s1 where "s1 = s\<lparr>world := w1,
      trace := trace s @ [Get (Details (tmdb_api_key self) ct tmdb_id)]\<rparr>"
    from d details have gd: "get_content_details env self ct tmdb_id s = (Inr details, s1)"
      by (simp add: get_content_details_def http_get_def s1_def)
    obtain r2 w2 where x: "http_get_json env (External_ids (tmdb_api_key self) ct tmdb_id) w1 = (r2, w2)"
      by (cases "http_get_json env (External_ids (tmdb_api_key self) ct tmdb_id) w1")
    show ?thesis
    proof (cases r2)
      case (Inl e)
      with id gd x show ?thesis
        by (simp add: item_body_def get_external_ids_def http_get_def s1_def)
    next
      case ext: (Inr external_ids)
      define s2 where "s2 = s1\<lparr>world := w2,
        trace := trace s1 @ [Get (External_ids (tmdb_api_key self) ct tmdb_id)]\<rparr>"
      from x ext have gx: "get_external_ids env self ct tmdb_id s1 = (Inr external_ids, s2)"
        by (simp add: get_external_ids_def http_get_def s1_def s2_def)
      from raises d details x ext obtain imdb_id where
        i: "dict_get external_ids ''imdb_id'' JNull = Inr imdb_id" "truthy imdb_id"
          "isl (fst (http_get_json env (Omdb (omdb_api_key self) imdb_id) w2))"
        by (auto simp: enrichment_raises_def split: sum.splits)
      have w: "world s2 = w2" by (simp add: s2_def)
      from i(2,3) w have imdb: "\<exists>e s3. add_imdb env self imdb_id ci s2 = (Inl e, s3)" for ci
        by (cases "http_get_json env (Omdb (omdb_api_key self) imdb_id) w2")
           (auto simp: add_imdb_def get_imdb_data_def http_get_def isl_def)
      show ?thesis
      proof (cases "basic_info ct pn item tmdb_id imdb_id")
        case (Inl e)
        with id gd gx i(1) show ?thesis by (simp add: item_body_def)
      next
        case info: (Inr content_info)
        show ?thesis
        proof (cases "add_genres details content_info")
          case (Inl e)
          with id gd gx i(1) info show ?thesis by (simp add: item_body_def)
        next
          case (Inr content_info1)
          with id gd gx i(1) info imdb[of content_info1] show ?thesis
            by (simp add: item_body_def)
        qed
      qed
    qed
  qed
qed

text \<open>
  Claim C8 says that an item whose enrichment call fails is still emitted, with fallback
  fields. Counterexample: when the detail lookup fails in transport, the one item of the
  sample catalog is looked up and then left out of the table.
\<close>

theorem C8_counterexample:
  "fst (build_content_database (stub_env details_down)
          (StreamingDataFetcher ''k'' ''o'' ''US'') 2 None s0)
     = Inr ([], ''streaming_content_20240101_000000.csv'')
   \<and> Details ''k'' ''movie'' (JInt 603)
       \<in> set (outbound_calls (trace (snd (build_content_database (stub_env details_down)
            (StreamingDataFetcher ''k'' ''o'' ''US'') 2 None s0))))"
  by code_simp

text \<open>
  Claim C8, amended. If an enrichment call made for an item (detail lookup, external-id
  lookup or rating lookup) raises, the item is dropped: no record is added for it, so no
  record is ever written in part; the error is printed, the pause is taken, and the loop
  goes on with the next item of the page.
\<close>

theorem C8_failed_enrichment_drops_item:
  assumes "subscript item ''id'' = Inr tmdb_id"
    and "enrichment_raises env self ct tmdb_id (world s)"
  shows "\<exists>e s1.
           item_body env self ct pn item s = (Inl e, s1)
         \<and> item_loop env self ct pn (item # items) all_content s
             = item_loop env self ct pn items all_content
                 (emit (Sleep (1 / 2)) (emit (Print_item_error e) s1))
         \<and> fst (item_loop env self ct pn [item] all_content s) = all_content"
proof -
  from item_body_raises[OF assms] obtain e s1 where
    "item_body env self ct pn item s = (Inl e, s1)"
    by blast
  then show ?thesis by simp
qed

text \<open>Witness for C8, amended: the film of the sample catalog, with the detail lookup
  failing.\<close>

theorem C8_failed_enrichment_drops_item_witness:
  "subscript matrix_item ''id'' = Inr (JInt 603)
   \<and> enrichment_raises (stub_env details_down) (StreamingDataFetcher ''k'' ''o'' ''US'')
       ''movie'' (JInt 603) (world s0)
   \<and> fst (item_loop (stub_env details_down) (StreamingDataFetcher ''k'' ''o'' ''US'')
       ''movie'' ''Netflix'' [matrix_item] [] s0) = []"
proof -
  have h1: "subscript matrix_item ''id'' = Inr (JInt 603)" by code_simp
  have h2: "enrichment_raises (stub_env details_down) (StreamingDataFetcher ''k'' ''o'' ''US'')
       ''movie'' (JInt 603) (world s0)"
    by code_simp
  from C8_failed_enrichment_drops_item[OF h1 h2, of "''Netflix''" "[]" "[]"] h1 h2
  show ?thesis by blast
qed

subsection \<open>Pages of one combination\<close>







section \<open>The progress fraction\<close>

text \<open>
  Claim C1 says that the fraction handed to the progress callback never exceeds 1. On the
  sample catalog with one page per combination the callback receives, in this order, the
  fractions below: the counter runs over all twelve combinations while the divisor counts
  the six providers, so that from the second TV combination on the fraction is above 1.
\<close>

theorem C1_progress_fraction_exceeds_one:
  "progress_fractions (trace (snd (build_content_database (stub_env catalog)
       (StreamingDataFetcher ''k'' ''o'' ''US'') 1 (Some accept_progress) s0)))
     = [0, 1 / 6, 1 / 3, 1 / 2, 2 / 3, 5 / 6, 1, 7 / 6, 4 / 3, 3 / 2, 5 / 3, 11 / 6]"
  by code_simp

end
